theory Spec2Isabelle
  imports Main "HOL-Library.Char_ord" "HOL-Library.List_Lexorder"
begin

section \<open>Values of the program\<close>

text \<open>
  The script \<^verbatim>\<open>data_collection_script.py\<close> downloads stop-and-search records month by
  month and force by force, tags them and writes them to files. The values it handles are
  decoded JSON: a record is a Python \<^verbatim>\<open>dict\<close> from field names to JSON values. A dict keeps
  its keys in insertion order, so it is an association list.
\<close>

text \<open>
  A float is finite, and then named here by the text \<^verbatim>\<open>repr\<close> shows for it (\<^verbatim>\<open>float\<close> of
  that text is the float again), or it is one of the three values that are not numbers of
  JSON.
\<close>

datatype py_float = Finite string | NaN | Infinity | NegInfinity

datatype json =
    JNull
  | JBool bool
  | JInt int
  | JFloat py_float
  | JStr string
  | JArr "json list"
  | JObj "(string \<times> json) list"

type_synonym py_dict = "(string \<times> json) list"

text \<open>
  \<^verbatim>\<open>d[k] = v\<close>: an existing key keeps its position and takes the new value, a new key
  goes to the end.
\<close>

fun setitem :: "py_dict \<Rightarrow> string \<Rightarrow> json \<Rightarrow> py_dict" where
  "setitem [] k v = [(k, v)]"
| "setitem ((k', v') # d) k v =
     (if k' = k then (k, v) # d else (k', v') # setitem d k v)"

text \<open>\<^verbatim>\<open>d.get(k)\<close>: the value stored under a key, if any.\<close>

definition getitem :: "py_dict \<Rightarrow> string \<Rightarrow> json option" where
  "getitem d k = map_of d k"

text \<open>The exceptions that can leave a function of the script.\<close>

datatype py_error =
    KeyError
  | ValueError
  | ArgumentTypeError
  | SystemExit
  | IndexError
  | RequestException
  | JSONDecodeError

text \<open>
  What \<^verbatim>\<open>requests.get\<close> does: it raises (no response was obtained), or it returns a
  response with a status code. \<^verbatim>\<open>response.json()\<close> decodes the body, and raises when the
  body is not JSON: that is \<open>None\<close> in the second field.
\<close>

datatype 'a http_result =
    Raises
  | Response nat "'a option"

text \<open>
  An entry of the catalog served by \<^verbatim>\<open>crimes-street-dates\<close>: a dict read at two keys,
  \<^verbatim>\<open>'date'\<close> (here \<open>entry_date\<close>) and \<^verbatim>\<open>'stop-and-search'\<close> (here \<open>entry_forces\<close>).
  Either key may be absent (\<open>None\<close>). Values have the types the API gives them: the date
  is a string (of any content), the forces are a list of strings, and the body of a
  \<^verbatim>\<open>stops-force\<close> response is a list of records.
\<close>

record month_data =
  entry_date :: "string option"
  entry_forces :: "string list option"

section \<open>Dates\<close>

text \<open>
  \<^verbatim>\<open>datetime.strptime(s, "%Y-%m")\<close> yields the first day of a month at midnight, so a
  parsed date is a year and a month, compared year first.
\<close>

datatype datetime = Datetime nat nat

fun dt_less :: "datetime \<Rightarrow> datetime \<Rightarrow> bool" where
  "dt_less (Datetime y1 m1) (Datetime y2 m2) = (y1 < y2 \<or> (y1 = y2 \<and> m1 < m2))"

definition digit_of :: "char \<Rightarrow> nat option" where
  "digit_of c = map_of
     [(CHR ''0'', 0), (CHR ''1'', 1), (CHR ''2'', 2), (CHR ''3'', 3), (CHR ''4'', 4),
      (CHR ''5'', 5), (CHR ''6'', 6), (CHR ''7'', 7), (CHR ''8'', 8), (CHR ''9'', 9)] c"

fun digits_value :: "char list \<Rightarrow> nat option" where
  "digits_value [] = Some 0"
| "digits_value (c # cs) =
     (case digit_of c of
        None \<Rightarrow> None
      | Some d \<Rightarrow> (case digits_value cs of
                     None \<Rightarrow> None
                   | Some n \<Rightarrow> Some (d * 10 ^ length cs + n)))"

text \<open>
  The format \<^verbatim>\<open>"%Y-%m"\<close> on ASCII text: four digits, a hyphen, and a month written
  \<^verbatim>\<open>1\<close> to \<^verbatim>\<open>9\<close>, \<^verbatim>\<open>01\<close> to \<^verbatim>\<open>09\<close> or \<^verbatim>\<open>10\<close> to \<^verbatim>\<open>12\<close>, with nothing after it. The year
  \<^verbatim>\<open>0000\<close> is refused by the \<^verbatim>\<open>datetime\<close> constructor. \<open>None\<close> stands for the
  \<^verbatim>\<open>ValueError\<close> that \<^verbatim>\<open>strptime\<close> raises.
\<close>

definition strptime :: "string \<Rightarrow> datetime option" where
  "strptime s =
     (if length s < 6 \<or> 7 < length s \<or> s ! 4 \<noteq> CHR ''-'' then None
      else (case (digits_value (take 4 s), digits_value (drop 5 s)) of
              (Some y, Some m) \<Rightarrow>
                 if 1 \<le> y \<and> 1 \<le> m \<and> m \<le> 12 then Some (Datetime y m) else None
            | _ \<Rightarrow> None))"

text \<open>
  \<^verbatim>\<open>parse_date\<close> (lines 11 to 16) turns the \<^verbatim>\<open>ValueError\<close> into an
  \<^verbatim>\<open>ArgumentTypeError\<close>.
\<close>

definition parse_date :: "string \<Rightarrow> py_error + datetime" where
  "parse_date date_string =
     (case strptime date_string of
        Some d \<Rightarrow> Inr d
      | None \<Rightarrow> Inl ArgumentTypeError)"

section \<open>The catalog: \<^verbatim>\<open>fetch_available_dates\<close>\<close>

text \<open>
  The loop of lines 27 to 36. Every entry's \<^verbatim>\<open>'date'\<close> is read (\<^verbatim>\<open>KeyError\<close> when
  absent) and parsed (\<^verbatim>\<open>ValueError\<close> when malformed) before the bounds are looked at.
  \<^verbatim>\<open>start_date and month_date < start_date\<close> is false for an omitted bound.
\<close>

fun filter_months ::
  "datetime option \<Rightarrow> datetime option \<Rightarrow> month_data list \<Rightarrow> month_data list
     \<Rightarrow> py_error + month_data list" where
  "filter_months start_date end_date [] filtered_data = Inr filtered_data"
| "filter_months start_date end_date (md # available_data) filtered_data =
     (case entry_date md of
        None \<Rightarrow> Inl KeyError
      | Some s \<Rightarrow>
          (case strptime s of
             None \<Rightarrow> Inl ValueError
           | Some month_date \<Rightarrow>
               if (case start_date of None \<Rightarrow> False | Some sd \<Rightarrow> dt_less month_date sd)
               then filter_months start_date end_date available_data filtered_data
               else if (case end_date of None \<Rightarrow> False | Some ed \<Rightarrow> dt_less ed month_date)
               then filter_months start_date end_date available_data filtered_data
               else filter_months start_date end_date available_data (filtered_data @ [md])))"

text \<open>
  \<^verbatim>\<open>fetch_available_dates\<close> (lines 18 to 48), given what the one request to
  \<^verbatim>\<open>crimes-street-dates\<close> does. A status other than 200 gives the empty catalog without
  decoding the body.
\<close>

definition fetch_available_dates ::
  "month_data list http_result \<Rightarrow> datetime option \<Rightarrow> datetime option
     \<Rightarrow> py_error + month_data list" where
  "fetch_available_dates response start_date end_date =
     (case response of
        Raises \<Rightarrow> Inl RequestException
      | Response status_code body \<Rightarrow>
          (case (if status_code = 200
                 then (case body of None \<Rightarrow> Inl JSONDecodeError | Some c \<Rightarrow> Inr c)
                 else Inr []) of
             Inl e \<Rightarrow> Inl e
           | Inr available_data \<Rightarrow>
               if start_date \<noteq> None \<or> end_date \<noteq> None
               then filter_months start_date end_date available_data []
               else Inr available_data))"

section \<open>The records: \<^verbatim>\<open>fetch_stops_data\<close>\<close>

text \<open>
  The network answers each call to \<^verbatim>\<open>stops-force\<close> as it pleases: the answer may depend
  on the force, on the date and on how many calls were made before.
\<close>

type_synonym transport = "nat \<Rightarrow> string \<Rightarrow> string \<Rightarrow> py_dict list http_result"

text \<open>
  The three variables of the function, and the number of calls to \<^verbatim>\<open>requests.get\<close> made so
  far, which the code does not hold: it only says which answer of the network comes next.
\<close>

record fetch_state =
  all_records :: "py_dict list"
  total_records :: nat
  total_requests :: nat
  calls :: nat

text \<open>Lines 83 and 84: the two assignments to a record of the response.\<close>

definition tagged :: "string \<Rightarrow> string \<Rightarrow> py_dict \<Rightarrow> py_dict" where
  "tagged date force_id r =
     setitem (setitem r ''date'' (JStr date)) ''force_id'' (JStr force_id)"

text \<open>The loop of lines 82 to 85: tag a record, append it.\<close>

fun tag_records :: "string \<Rightarrow> string \<Rightarrow> py_dict list \<Rightarrow> py_dict list \<Rightarrow> py_dict list" where
  "tag_records date force_id [] acc = acc"
| "tag_records date force_id (r # stops) acc =
     tag_records date force_id stops (acc @ [tagged date force_id r])"

text \<open>
  The body of the loop over forces, lines 70 to 97. \<^verbatim>\<open>total_requests += 1\<close> stands after
  the call inside the \<^verbatim>\<open>try\<close>, so it is skipped when the call raises. Every exception of
  the block is caught.
\<close>

definition fetch_force :: "transport \<Rightarrow> string \<Rightarrow> string \<Rightarrow> fetch_state \<Rightarrow> fetch_state" where
  "fetch_force http date force_id st =
     (case http (calls st) force_id date of
        Raises \<Rightarrow> st\<lparr>calls := calls st + 1\<rparr>
      | Response status_code body \<Rightarrow>
          (let st1 = st\<lparr>total_requests := total_requests st + 1, calls := calls st + 1\<rparr>
           in if status_code = 200
              then (case body of
                      None \<Rightarrow> st1
                    | Some stops \<Rightarrow>
                        if stops \<noteq> []
                        then st1\<lparr>all_records := tag_records date force_id stops (all_records st1),
                                 total_records := total_records st1 + length stops\<rparr>
                        else st1)
              else st1))"

fun force_loop :: "transport \<Rightarrow> string \<Rightarrow> string list \<Rightarrow> fetch_state \<Rightarrow> fetch_state" where
  "force_loop http date [] st = st"
| "force_loop http date (force_id # forces) st =
     force_loop http date forces (fetch_force http date force_id st)"

text \<open>
  The loop over the catalog, lines 56 to 97. \<^verbatim>\<open>month_data['date']\<close> is outside the
  \<^verbatim>\<open>try\<close>: an entry without the key ends the function with a \<^verbatim>\<open>KeyError\<close>.
  \<^verbatim>\<open>month_data.get('stop-and-search', [])\<close> is the empty list when the key is absent.
\<close>

fun month_loop :: "transport \<Rightarrow> month_data list \<Rightarrow> fetch_state \<Rightarrow> py_error + fetch_state" where
  "month_loop http [] st = Inr st"
| "month_loop http (md # available_data) st =
     (case entry_date md of
        None \<Rightarrow> Inl KeyError
      | Some date \<Rightarrow>
          (let forces = (case entry_forces md of None \<Rightarrow> [] | Some fs \<Rightarrow> fs)
           in if forces = [] then month_loop http available_data st
              else month_loop http available_data (force_loop http date forces st)))"

definition fetch_stops_data ::
  "transport \<Rightarrow> month_data list \<Rightarrow> py_error + (py_dict list \<times> nat \<times> nat)" where
  "fetch_stops_data http available_data =
     (case month_loop http available_data
             \<lparr>all_records = [], total_records = 0, total_requests = 0, calls = 0\<rparr> of
        Inl e \<Rightarrow> Inl e
      | Inr st \<Rightarrow> Inr (all_records st, total_records st, total_requests st))"

section \<open>The files: \<^verbatim>\<open>save_data\<close>\<close>

text \<open>
  What a written file holds is the work of \<^verbatim>\<open>json.dump\<close> and of \<^verbatim>\<open>pandas\<close>; here it is
  named by the call that wrote it and the records that call was given. The text of a file
  written by \<^verbatim>\<open>json.dump\<close> is \<open>json_dump\<close> of the next section.
\<close>

datatype file_content =
    Json_dump "py_dict list"
  | To_csv "py_dict list"
  | To_parquet "py_dict list"

text \<open>
  \<^verbatim>\<open>save_data\<close> (lines 101 to 131): the files written, in the order written, and the list
  \<^verbatim>\<open>saved_files\<close> it returns.
\<close>

definition save_data ::
  "py_dict list \<Rightarrow> string \<Rightarrow> bool \<Rightarrow> bool \<Rightarrow> bool
     \<Rightarrow> (string \<times> file_content) list \<times> string list" where
  "save_data records output_base save_json save_csv save_parquet =
     (let json_files = (if save_json then [(output_base @ ''.json'', Json_dump records)] else []);
          csv_files = (if save_csv then [(output_base @ ''.csv'', To_csv records)] else []);
          parquet_files =
            (if save_parquet then [(output_base @ ''.parquet'', To_parquet records)] else []);
          written = json_files @ (if save_csv \<or> save_parquet then csv_files @ parquet_files else [])
      in (written, map fst written))"

section \<open>The JSON text: \<^verbatim>\<open>json.dump\<close> and \<^verbatim>\<open>json.load\<close>\<close>

text \<open>
  Modelled from the library's documentation: \<^verbatim>\<open>json.dump\<close> and \<^verbatim>\<open>json.load\<close> belong to
  the Python standard library, not to this repository. \<^verbatim>\<open>save_data\<close> calls
  \<^verbatim>\<open>json.dump(all_records, f, indent=2, ensure_ascii=False)\<close> on a file opened with
  \<^verbatim>\<open>encoding='utf-8'\<close>. A \<open>string\<close> is the UTF-8 bytes of a Python \<^verbatim>\<open>str\<close>, so the text
  below is the file byte for byte. A \<^verbatim>\<open>str\<close> with a lone surrogate has no UTF-8 bytes: it
  is not a value of this model, and writing it to such a file raises.
\<close>

subsection \<open>The encoder\<close>

abbreviation quote :: char where "quote \<equiv> CHR 0x22"
abbreviation backslash :: char where "backslash \<equiv> CHR 0x5C"

text \<open>
  Strings with \<^verbatim>\<open>ensure_ascii=False\<close>: the quote, the backslash and the characters below
  \<^verbatim>\<open>0x20\<close> are escaped (\<^verbatim>\<open>\b \f \n \r \t\<close>, the others as \<^verbatim>\<open>\u00XX\<close> in lower-case hex),
  every other character is written as it is.
\<close>

definition hex_digit :: "nat \<Rightarrow> char" where
  "hex_digit n = ''0123456789abcdef'' ! n"

definition escape_char :: "char \<Rightarrow> string" where
  "escape_char c =
     (if c = quote then [backslash, quote]
      else if c = backslash then [backslash, backslash]
      else if c = CHR 0x08 then [backslash, CHR ''b'']
      else if c = CHR 0x0C then [backslash, CHR ''f'']
      else if c = CHR 0x0A then [backslash, CHR ''n'']
      else if c = CHR 0x0D then [backslash, CHR ''r'']
      else if c = CHR 0x09 then [backslash, CHR ''t'']
      else if (of_char c :: nat) < 32
      then [backslash, CHR ''u'', CHR ''0'', CHR ''0'',
            hex_digit (of_char c div 16), hex_digit (of_char c mod 16)]
      else [c])"

definition encode_string :: "string \<Rightarrow> string" where
  "encode_string s = quote # concat (map escape_char s) @ [quote]"









subsection \<open>The decoder\<close>

text \<open>
  White space between tokens is space, tab, line feed and carriage return.
\<close>

definition is_ws :: "char \<Rightarrow> bool" where
  "is_ws c = (c = CHR '' '' \<or> c = CHR 0x09 \<or> c = CHR 0x0A \<or> c = CHR 0x0D)"

definition skip_ws :: "string \<Rightarrow> string" where
  "skip_ws s = dropWhile is_ws s"


text \<open>
  Strings: up to the closing quote; a raw character below \<^verbatim>\<open>0x20\<close> is refused; after a
  backslash one of \<^verbatim>\<open>" \ / b f n r t\<close>, or \<^verbatim>\<open>u\<close> and four hex digits, which name a
  character (two such escapes, a high and a low surrogate, name one character beyond
  \<^verbatim>\<open>0xFFFF\<close>). The character is stored as its UTF-8 bytes; a surrogate on its own has none.
\<close>

definition hex_value :: "char \<Rightarrow> nat option" where
  "hex_value c = map_of
     [(CHR ''0'', 0), (CHR ''1'', 1), (CHR ''2'', 2), (CHR ''3'', 3), (CHR ''4'', 4),
      (CHR ''5'', 5), (CHR ''6'', 6), (CHR ''7'', 7), (CHR ''8'', 8), (CHR ''9'', 9),
      (CHR ''a'', 10), (CHR ''b'', 11), (CHR ''c'', 12), (CHR ''d'', 13), (CHR ''e'', 14),
      (CHR ''f'', 15), (CHR ''A'', 10), (CHR ''B'', 11), (CHR ''C'', 12), (CHR ''D'', 13),
      (CHR ''E'', 14), (CHR ''F'', 15)] c"

definition hex4 :: "char \<Rightarrow> char \<Rightarrow> char \<Rightarrow> char \<Rightarrow> nat option" where
  "hex4 a b c d =
     (case (hex_value a, hex_value b, hex_value c, hex_value d) of
        (Some x, Some y, Some z, Some w) \<Rightarrow> Some (((x * 16 + y) * 16 + z) * 16 + w)
      | _ \<Rightarrow> None)"

definition utf8 :: "nat \<Rightarrow> string option" where
  "utf8 u =
     (if u < 0x80 then Some [char_of u]
      else if u < 0x800 then Some [char_of (0xC0 + u div 64), char_of (0x80 + u mod 64)]
      else if 0xD800 \<le> u \<and> u < 0xE000 then None
      else if u < 0x10000
      then Some [char_of (0xE0 + u div 4096), char_of (0x80 + u div 64 mod 64),
                 char_of (0x80 + u mod 64)]
      else Some [char_of (0xF0 + u div 262144), char_of (0x80 + u div 4096 mod 64),
                 char_of (0x80 + u div 64 mod 64), char_of (0x80 + u mod 64)])"

definition unescape :: "char \<Rightarrow> char option" where
  "unescape e = map_of
     [(quote, quote), (backslash, backslash), (CHR ''/'', CHR ''/''), (CHR ''b'', CHR 0x08),
      (CHR ''f'', CHR 0x0C), (CHR ''n'', CHR 0x0A), (CHR ''r'', CHR 0x0D), (CHR ''t'', CHR 0x09)] e"

text \<open>After \<^verbatim>\<open>\\u\<close>: four hex digits, and a low surrogate escape after a high one.\<close>

definition scan_unicode :: "string \<Rightarrow> (nat \<times> string) option" where
  "scan_unicode s =
     (case s of
        a # b # c # d # s1 \<Rightarrow>
          (case hex4 a b c d of
             None \<Rightarrow> None
           | Some u \<Rightarrow>
               if 0xD800 \<le> u \<and> u \<le> 0xDBFF
               then (case s1 of
                       bs # cu # a2 # b2 # c2 # d2 # s2 \<Rightarrow>
                         if bs = backslash \<and> cu = CHR ''u''
                         then (case hex4 a2 b2 c2 d2 of
                                 None \<Rightarrow> None
                               | Some u2 \<Rightarrow>
                                   if 0xDC00 \<le> u2 \<and> u2 \<le> 0xDFFF
                                   then Some (0x10000 + ((u - 0xD800) * 1024 + (u2 - 0xDC00)), s2)
                                   else Some (u, s1))
                         else Some (u, s1)
                     | _ \<Rightarrow> Some (u, s1))
               else Some (u, s1))
      | _ \<Rightarrow> None)"

function scan_string :: "string \<Rightarrow> (string \<times> string) option" where
  "scan_string [] = None"
| "scan_string (c # s) =
     (if c = quote then Some ([], s)
      else if c = backslash
      then (case s of
              [] \<Rightarrow> None
            | e # s1 \<Rightarrow>
                if e = CHR ''u''
                then (case scan_unicode s1 of
                        None \<Rightarrow> None
                      | Some (u, s2) \<Rightarrow>
                          (case utf8 u of
                             None \<Rightarrow> None
                           | Some bytes \<Rightarrow>
                               (case scan_string s2 of
                                  None \<Rightarrow> None
                                | Some (t, r) \<Rightarrow> Some (bytes @ t, r))))
                else (case unescape e of
                        None \<Rightarrow> None
                      | Some ch \<Rightarrow>
                          (case scan_string s1 of
                             None \<Rightarrow> None
                           | Some (t, r) \<Rightarrow> Some (ch # t, r))))
      else if (of_char c :: nat) < 32 then None
      else (case scan_string s of
              None \<Rightarrow> None
            | Some (t, r) \<Rightarrow> Some (c # t, r)))"
  by pat_completeness auto
termination
  by (relation "measure length")
     (auto simp: scan_unicode_def split: list.splits option.splits if_splits)

declare scan_string.simps(2) [simp del]










section \<open>The pipeline: \<^verbatim>\<open>main\<close>\<close>

datatype output_format = Format_json | Format_csv | Format_parquet | Format_all

text \<open>The parsed command line: \<^verbatim>\<open>--format\<close>, \<^verbatim>\<open>--start\<close>, \<^verbatim>\<open>--end\<close>.\<close>

record args =
  args_format :: output_format
  args_start :: "string option"
  args_end :: "string option"

text \<open>What the run meets outside the program.\<close>

record world =
  catalog_response :: "month_data list http_result"
  stops_transport :: transport
  output_dir_exists :: bool

text \<open>
  What a run that ends without an exception has done: the lines \<^verbatim>\<open>main\<close> itself printed,
  whether it created the output directory, the base path it gave to \<^verbatim>\<open>save_data\<close>
  (\<open>None\<close> when \<^verbatim>\<open>save_data\<close> was never called), the files written, and the counts and
  file list handed to \<^verbatim>\<open>print_summary\<close>.
\<close>

record run =
  printed :: "string list"
  created_dir :: bool
  output_path :: "string option"
  files :: "(string \<times> file_content) list"
  summary :: "(nat \<times> nat \<times> nat \<times> string list) option"

text \<open>\<^verbatim>\<open>os.path.join\<close> of two components, with \<^verbatim>\<open>/\<close> as the separator.\<close>

definition path_join :: "string \<Rightarrow> string \<Rightarrow> string" where
  "path_join a b =
     (if b \<noteq> [] \<and> hd b = CHR ''/'' then b
      else if a = [] \<or> last a = CHR ''/'' then a @ b
      else a @ ''/'' @ b)"

text \<open>
  \<^verbatim>\<open>parse_date(x) if x else None\<close> (lines 183 and 184): an absent or empty argument is no
  bound.
\<close>

definition parse_bound :: "string option \<Rightarrow> py_error + datetime option" where
  "parse_bound x =
     (case x of
        None \<Rightarrow> Inr None
      | Some s \<Rightarrow>
          if s = [] then Inr None
          else (case parse_date s of Inl e \<Rightarrow> Inl e | Inr d \<Rightarrow> Inr (Some d)))"

text \<open>\<^verbatim>\<open>[d['date'] for d in available_data]\<close> (line 218).\<close>

fun dates_of :: "month_data list \<Rightarrow> py_error + string list" where
  "dates_of [] = Inr []"
| "dates_of (d # available_data) =
     (case entry_date d of
        None \<Rightarrow> Inl KeyError
      | Some s \<Rightarrow> (case dates_of available_data of
                     Inl e \<Rightarrow> Inl e
                   | Inr ss \<Rightarrow> Inr (s # ss)))"

text \<open>
  Lines 208 to 229, reached with a catalog and records that are not empty. \<^verbatim>\<open>sorted\<close> orders
  strings character by character; \<^verbatim>\<open>dates_found[0]\<close> and \<^verbatim>\<open>dates_found[-1]\<close> raise on an
  empty list.
\<close>

definition export_stage ::
  "args \<Rightarrow> world \<Rightarrow> month_data list \<Rightarrow> py_dict list \<Rightarrow> nat \<Rightarrow> nat \<Rightarrow> py_error + run" where
  "export_stage a w available_data records n_records n_requests =
     (let save_json = (args_format a = Format_json \<or> args_format a = Format_all);
          save_csv = (args_format a = Format_csv \<or> args_format a = Format_all);
          save_parquet = (args_format a = Format_parquet \<or> args_format a = Format_all);
          output_dir = path_join ''data'' ''stop_search_data''
      in (case dates_of available_data of
            Inl e \<Rightarrow> Inl e
          | Inr ds \<Rightarrow>
              (let dates_found = sort ds
               in if dates_found = [] then Inl IndexError
                  else
                    (let file_start_date = hd dates_found;
                         file_final_date = last dates_found;
                         filename = ''ssd_'' @ file_start_date @ ''-'' @ file_final_date;
                         path = path_join output_dir filename;
                         (written, saved_files) =
                            save_data records path save_json save_csv save_parquet
                     in Inr \<lparr>printed =
                               (if output_dir_exists w then []
                                else [CHR 0x0A # ''Created directory: '' @ output_dir]),
                             created_dir = (\<not> output_dir_exists w),
                             output_path = Some path,
                             files = written,
                             summary = Some (length available_data, n_requests, n_records,
                                             saved_files)\<rparr>))))"

text \<open>
  \<^verbatim>\<open>main\<close> (lines 146 to 229). \<^verbatim>\<open>parser.error\<close> leaves with \<^verbatim>\<open>SystemExit\<close>. The two early
  returns come before the directory is created and before \<^verbatim>\<open>save_data\<close>.
\<close>

definition main :: "args \<Rightarrow> world \<Rightarrow> py_error + run" where
  "main a w =
     (case parse_bound (args_start a) of
        Inl e \<Rightarrow> Inl e
      | Inr start_date \<Rightarrow>
     (case parse_bound (args_end a) of
        Inl e \<Rightarrow> Inl e
      | Inr end_date \<Rightarrow>
     if (case start_date of
           None \<Rightarrow> False
         | Some s \<Rightarrow> (case end_date of None \<Rightarrow> False | Some e \<Rightarrow> dt_less e s))
     then Inl SystemExit
     else
     (case fetch_available_dates (catalog_response w) start_date end_date of
        Inl e \<Rightarrow> Inl e
      | Inr available_data \<Rightarrow>
     if available_data = []
     then Inr \<lparr>printed = [''No hay datos disponibles para el rango de fechas especificado''],
               created_dir = False, output_path = None, files = [], summary = None\<rparr>
     else
     (case fetch_stops_data (stops_transport w) available_data of
        Inl e \<Rightarrow> Inl e
      | Inr (records, n_records, n_requests) \<Rightarrow>
     if records = []
     then Inr \<lparr>printed = [''No se obtuvieron registros''],
               created_dir = False, output_path = None, files = [], summary = None\<rparr>
     else export_stage a w available_data records n_records n_requests))))"

section \<open>What the claims speak of\<close>

text \<open>
  The definitions of this section are not taken from the code: they say, in the words of
  the specification, what the code is compared with.
\<close>

text \<open>One request: its month, its force, and what the network did with it.\<close>

type_synonym attempt = "string \<times> string \<times> py_dict list http_result"

definition forces_of :: "month_data \<Rightarrow> string list" where
  "forces_of md = (case entry_forces md of None \<Rightarrow> [] | Some fs \<Rightarrow> fs)"

text \<open>
  The (month, force) pairs of a catalog: month by month in the catalog's order, and within
  a month force by force in the entry's order. An entry with no force gives no pair.
\<close>

definition request_pairs :: "month_data list \<Rightarrow> (string \<times> string) list" where
  "request_pairs catalog =
     concat (map (\<lambda>md. case entry_date md of
                          None \<Rightarrow> []
                        | Some d \<Rightarrow> map (Pair d) (forces_of md)) catalog)"

text \<open>The pairs with the answer each one gets, the first call being call number \<open>n\<close>.\<close>

definition attempts_from :: "nat \<Rightarrow> transport \<Rightarrow> (string \<times> string) list \<Rightarrow> attempt list" where
  "attempts_from n http pairs =
     map (\<lambda>(k, d, f). (d, f, http k f d)) (enumerate n pairs)"

definition attempts :: "transport \<Rightarrow> month_data list \<Rightarrow> attempt list" where
  "attempts http catalog = attempts_from 0 http (request_pairs catalog)"

text \<open>The records of an answer: those of a decoded body that came with status 200.\<close>

definition body_records :: "py_dict list http_result \<Rightarrow> py_dict list" where
  "body_records out =
     (case out of
        Raises \<Rightarrow> []
      | Response status body \<Rightarrow>
          (case body of
             None \<Rightarrow> []
           | Some stops \<Rightarrow> if status = 200 then stops else []))"

text \<open>What one request adds to the result: its records, tagged, in the order of the body.\<close>

definition contribution :: "attempt \<Rightarrow> py_dict list" where
  "contribution a = (case a of (d, f, out) \<Rightarrow> map (tagged d f) (body_records out))"

text \<open>A request that got a response, whatever its status.\<close>

definition responded :: "attempt \<Rightarrow> bool" where
  "responded a = (case a of (d, f, out) \<Rightarrow> out \<noteq> Raises)"

text \<open>A request that ended in a transport-level exception or in a status other than 200.\<close>

definition failed :: "attempt \<Rightarrow> bool" where
  "failed a =
     (case a of (d, f, out) \<Rightarrow>
        (case out of Raises \<Rightarrow> True | Response status body \<Rightarrow> status \<noteq> 200))"

text \<open>
  What one request adds to \<^verbatim>\<open>total_records\<close> according to the specification: the length of
  a body that is not empty and came with a success status, and zero otherwise.
\<close>

definition successful_length :: "attempt \<Rightarrow> nat" where
  "successful_length a =
     (case a of (d, f, out) \<Rightarrow>
        (case out of
           Raises \<Rightarrow> 0
         | Response status body \<Rightarrow>
             (case body of
                None \<Rightarrow> 0
              | Some stops \<Rightarrow> if status = 200 \<and> stops \<noteq> [] then length stops else 0)))"

text \<open>The state of the loops after a run of requests.\<close>

definition advance :: "fetch_state \<Rightarrow> attempt list \<Rightarrow> fetch_state" where
  "advance st as =
     \<lparr>all_records = all_records st @ concat (map contribution as),
      total_records = total_records st + sum_list (map successful_length as),
      total_requests = total_requests st + length (filter responded as),
      calls = calls st + length as\<rparr>"

text \<open>
  The month of an entry, when its \<^verbatim>\<open>'date'\<close> is there and parses; the order of months;
  and the entries a pair of optional bounds keeps: those with \<open>start \<le> month \<le> end\<close>, an
  omitted bound asking nothing.
\<close>

definition parsed_month :: "month_data \<Rightarrow> datetime option" where
  "parsed_month md = (case entry_date md of None \<Rightarrow> None | Some s \<Rightarrow> strptime s)"

fun dt_le :: "datetime \<Rightarrow> datetime \<Rightarrow> bool" where
  "dt_le (Datetime y1 m1) (Datetime y2 m2) = (y1 < y2 \<or> (y1 = y2 \<and> m1 \<le> m2))"

definition in_range :: "datetime option \<Rightarrow> datetime option \<Rightarrow> month_data \<Rightarrow> bool" where
  "in_range start_date end_date md =
     ((case start_date of
         None \<Rightarrow> True
       | Some s \<Rightarrow> (case parsed_month md of None \<Rightarrow> False | Some m \<Rightarrow> dt_le s m))
      \<and> (case end_date of
            None \<Rightarrow> True
          | Some e \<Rightarrow> (case parsed_month md of None \<Rightarrow> False | Some m \<Rightarrow> dt_le m e)))"

text \<open>
  The month strings of a catalog, entry by entry; and the bounds that the command line
  accepts: a start that is not after the end.
\<close>

definition months_of :: "month_data list \<Rightarrow> string list" where
  "months_of catalog = List.map_filter entry_date catalog"

definition bounds_accepted :: "datetime option \<Rightarrow> datetime option \<Rightarrow> bool" where
  "bounds_accepted start_date end_date =
     (case start_date of
        None \<Rightarrow> True
      | Some s \<Rightarrow> (case end_date of None \<Rightarrow> True | Some e \<Rightarrow> dt_le s e))"











definition prepend :: "char \<Rightarrow> (string \<times> string) option \<Rightarrow> (string \<times> string) option" where
  "prepend c r = (case r of None \<Rightarrow> None | Some (t, rest) \<Rightarrow> Some (c # t, rest))"


section \<open>Example inputs\<close>

definition one_month :: "month_data list" where
  "one_month = [\<lparr>entry_date = Some ''2023-01'', entry_forces = Some [''metropolitan'']\<rparr>]"

text \<open>A network on which every call raises.\<close>

definition unreachable :: transport where
  "unreachable k force_id date = Raises"

definition demo_catalog :: "month_data list" where
  "demo_catalog =
     [\<lparr>entry_date = Some ''2023-01'', entry_forces = Some [''essex'', ''kent'']\<rparr>,
      \<lparr>entry_date = Some ''2023-02'', entry_forces = Some []\<rparr>,
      \<lparr>entry_date = Some ''2023-03'', entry_forces = Some [''essex'', ''surrey'']\<rparr>]"

definition demo_body :: "py_dict list" where
  "demo_body = [[(''type'', JStr ''search'')], [(''date'', JStr ''old'')]]"

text \<open>Calls for \<^verbatim>\<open>kent\<close> raise, calls for \<^verbatim>\<open>surrey\<close> get a 404, the others two records.\<close>

definition demo_http :: transport where
  "demo_http k force_id date =
     (if force_id = ''kent'' then Raises
      else if force_id = ''surrey'' then Response 404 None
      else Response 200 (Some demo_body))"

text \<open>
  A record that already has the fields \<^verbatim>\<open>date\<close> and \<^verbatim>\<open>force_id\<close>, a network that serves
  it, and the state in which \<^verbatim>\<open>fetch_stops_data\<close> starts.
\<close>

definition old_record :: py_dict where
  "old_record = [(''date'', JStr ''1999-12''), (''type'', JStr ''search''), (''force_id'', JInt 7)]"

definition old_http :: transport where
  "old_http k force_id date = Response 200 (Some [old_record])"

definition start_state :: fetch_state where
  "start_state = \<lparr>all_records = [], total_records = 0, total_requests = 0, calls = 0\<rparr>"

text \<open>
  Catalogs: four months that parse, one with a month that does not parse, one with an
  entry that has no \<^verbatim>\<open>'date'\<close>; and an unfiltered run that meets the last one.
\<close>

definition year_catalog :: "month_data list" where
  "year_catalog =
     [\<lparr>entry_date = Some ''2022-12'', entry_forces = Some [''essex'']\<rparr>,
      \<lparr>entry_date = Some ''2023-01'', entry_forces = Some [''metropolitan'']\<rparr>,
      \<lparr>entry_date = Some ''2023-02'', entry_forces = Some []\<rparr>,
      \<lparr>entry_date = Some ''2023-03'', entry_forces = None\<rparr>]"

definition malformed_catalog :: "month_data list" where
  "malformed_catalog =
     [\<lparr>entry_date = Some ''2023-01'', entry_forces = Some [''essex'']\<rparr>,
      \<lparr>entry_date = Some ''January'', entry_forces = Some [''essex'']\<rparr>]"

definition undated_catalog :: "month_data list" where
  "undated_catalog = [\<lparr>entry_date = None, entry_forces = Some [''essex'']\<rparr>]"

definition undated_world :: world where
  "undated_world =
     \<lparr>catalog_response = Response 200 (Some undated_catalog),
      stops_transport = demo_http,
      output_dir_exists = True\<rparr>"

definition unfiltered_args :: args where
  "unfiltered_args = \<lparr>args_format = Format_parquet, args_start = None, args_end = None\<rparr>"

text \<open>
  The scenario of the specification: a month with one force and a month with none. Three
  runs: one that gets a record, one whose requests all return an empty array, and one whose
  catalog request is answered with a status other than 200.
\<close>

definition scenario_catalog :: "month_data list" where
  "scenario_catalog =
     [\<lparr>entry_date = Some ''2023-01'', entry_forces = Some [''metropolitan'']\<rparr>,
      \<lparr>entry_date = Some ''2023-02'', entry_forces = Some []\<rparr>]"

definition scenario_world :: world where
  "scenario_world =
     \<lparr>catalog_response = Response 200 (Some scenario_catalog),
      stops_transport = old_http,
      output_dir_exists = False\<rparr>"

definition empty_http :: transport where
  "empty_http k force_id date = Response 200 (Some [])"

definition empty_world :: world where
  "empty_world =
     \<lparr>catalog_response = Response 200 (Some scenario_catalog),
      stops_transport = empty_http,
      output_dir_exists = False\<rparr>"

definition no_catalog_world :: world where
  "no_catalog_world =
     \<lparr>catalog_response = Response 503 None,
      stops_transport = old_http,
      output_dir_exists = False\<rparr>"




section \<open>Filtering the catalog\<close>

lemma not_dt_less: "(\<not> dt_less a b) = dt_le b a"
  by (cases a; cases b) auto

lemma filter_months_eq:
  assumes "\<forall>md\<in>set catalog. parsed_month md \<noteq> None"
  shows "filter_months start_date end_date catalog acc =
           Inr (acc @ filter (in_range start_date end_date) catalog)"
  using assms
proof (induction catalog arbitrary: acc)
  case Nil
  show ?case by simp
next
  case (Cons md catalog)
  from Cons.prems obtain s m where s: "entry_date md = Some s" and m: "strptime s = Some m"
    by (auto simp: parsed_month_def split: option.splits)
  from Cons.prems have rest: "\<forall>md\<in>set catalog. parsed_month md \<noteq> None"
    by simp
  have pm: "parsed_month md = Some m"
    by (simp add: parsed_month_def s m)
  have step: "filter_months start_date end_date (md # catalog) acc =
               filter_months start_date end_date catalog
                 (if in_range start_date end_date md then acc @ [md] else acc)"
    by (cases start_date; cases end_date)
       (auto simp: s m pm in_range_def not_dt_less [symmetric])
  show ?case
    unfolding step Cons.IH [OF rest] by simp
qed

lemma fetch_available_dates_eq:
  assumes "start_date \<noteq> None \<or> end_date \<noteq> None \<longrightarrow>
             (\<forall>md\<in>set catalog. parsed_month md \<noteq> None)"
  shows "fetch_available_dates (Response 200 (Some catalog)) start_date end_date =
           Inr (filter (in_range start_date end_date) catalog)"
proof (cases "start_date \<noteq> None \<or> end_date \<noteq> None")
  case True
  with assms have "\<forall>md\<in>set catalog. parsed_month md \<noteq> None"
    by blast
  from filter_months_eq [OF this, of start_date end_date "[]"] True show ?thesis
    by (auto simp: fetch_available_dates_def)
next
  case False
  then show ?thesis
    by (simp add: fetch_available_dates_def in_range_def)
qed

lemma fetch_available_dates_unfiltered:
  "fetch_available_dates (Response 200 (Some catalog)) None None = Inr catalog"
  by (simp add: fetch_available_dates_def)

text \<open>
  Claim C4: for every catalog whose entries have a month that parses, and every pair of
  optional bounds, \<^verbatim>\<open>fetch_available_dates\<close> returns the entries with
  \<open>start \<le> month \<le> end\<close>, in the catalog's order, an omitted bound asking nothing; with no
  bound it returns the catalog as it is (whatever its entries hold).
\<close>

theorem fetch_available_dates_filters:
  assumes "start_date \<noteq> None \<or> end_date \<noteq> None \<longrightarrow>
             (\<forall>md\<in>set catalog. parsed_month md \<noteq> None)"
  shows "fetch_available_dates (Response 200 (Some catalog)) start_date end_date =
           Inr (filter (in_range start_date end_date) catalog)
         \<and> fetch_available_dates (Response 200 (Some catalog)) None None = Inr catalog"
  using fetch_available_dates_eq [OF assms] fetch_available_dates_unfiltered
  by simp

lemma year_parsed:
  "map parsed_month year_catalog =
     [Some (Datetime 2022 12), Some (Datetime 2023 1), Some (Datetime 2023 2), Some (Datetime 2023 3)]"
  by (simp add: year_catalog_def parsed_month_def strptime_def digit_of_def)

theorem fetch_available_dates_filters_witness:
  "Some (Datetime 2023 1) \<noteq> None
   \<and> list_all (\<lambda>md. parsed_month md \<noteq> None) year_catalog
   \<and> fetch_available_dates (Response 200 (Some year_catalog))
         (Some (Datetime 2023 1)) (Some (Datetime 2023 2)) =
       Inr [\<lparr>entry_date = Some ''2023-01'', entry_forces = Some [''metropolitan'']\<rparr>,
            \<lparr>entry_date = Some ''2023-02'', entry_forces = Some []\<rparr>]"
proof -
  have p: "\<forall>md\<in>set year_catalog. parsed_month md \<noteq> None"
    using year_parsed by (simp add: year_catalog_def)
  then have h: "Some (Datetime 2023 1) \<noteq> None \<or> Some (Datetime 2023 2) \<noteq> None \<longrightarrow>
             (\<forall>md\<in>set year_catalog. parsed_month md \<noteq> None)"
    by blast
  have f: "filter (in_range (Some (Datetime 2023 1)) (Some (Datetime 2023 2))) year_catalog =
             [\<lparr>entry_date = Some ''2023-01'', entry_forces = Some [''metropolitan'']\<rparr>,
              \<lparr>entry_date = Some ''2023-02'', entry_forces = Some []\<rparr>]"
    using year_parsed by (simp add: year_catalog_def in_range_def)
  from fetch_available_dates_filters [OF h] p show ?thesis
    unfolding f by (simp add: list_all_iff)
qed

section \<open>The loops of \<^verbatim>\<open>fetch_stops_data\<close>, in closed form\<close>

lemma map_of_setitem:
  "map_of (setitem d k v) k' = (if k' = k then Some v else map_of d k')"
  by (induction d) auto

lemma getitem_tagged:
  "getitem (tagged date force_id r) k =
     (if k = ''force_id'' then Some (JStr force_id)
      else if k = ''date'' then Some (JStr date)
      else getitem r k)"
  by (simp add: getitem_def tagged_def map_of_setitem)

lemma tag_records_eq: "tag_records d f stops acc = acc @ map (tagged d f) stops"
  by (induction stops arbitrary: acc) simp_all

lemma attempts_from_Nil [simp]: "attempts_from n http [] = []"
  by (simp add: attempts_from_def)

lemma attempts_from_Cons:
  "attempts_from n http ((d, f) # pairs) = (d, f, http n f d) # attempts_from (Suc n) http pairs"
  by (simp add: attempts_from_def)

lemma attempts_from_append:
  "attempts_from n http (ps @ qs) =
     attempts_from n http ps @ attempts_from (n + length ps) http qs"
  by (simp add: attempts_from_def enumerate_append_eq)

lemma length_attempts_from [simp]: "length (attempts_from n http pairs) = length pairs"
  by (simp add: attempts_from_def)

lemma pairs_of_attempts_from:
  "map (\<lambda>(d, f, out). (d, f)) (attempts_from n http pairs) = pairs"
  by (induction pairs arbitrary: n) (auto simp: attempts_from_Cons)

lemma advance_Nil [simp]: "advance st [] = st"
  by (simp add: advance_def)

lemma advance_append: "advance (advance st as) bs = advance st (as @ bs)"
  by (simp add: advance_def)

lemma successful_length_eq: "successful_length a = length (contribution a)"
  by (auto simp: successful_length_def contribution_def body_records_def
           split: prod.splits http_result.splits option.splits)

lemma failed_contribution: "failed a \<Longrightarrow> contribution a = []"
  by (auto simp: failed_def contribution_def body_records_def
           split: prod.splits http_result.splits option.splits)

lemma concat_map_filter_empty:
  "(\<And>x. x \<in> set xs \<Longrightarrow> \<not> P x \<Longrightarrow> f x = []) \<Longrightarrow>
     concat (map f (filter P xs)) = concat (map f xs)"
  by (induction xs) auto

lemma sum_list_map_filter_zero:
  "(\<And>x. x \<in> set xs \<Longrightarrow> \<not> P x \<Longrightarrow> g x = (0::nat)) \<Longrightarrow>
     sum_list (map g (filter P xs)) = sum_list (map g xs)"
  by (induction xs) auto

lemma request_pairs_skip_empty:
  "request_pairs (filter (\<lambda>md. forces_of md \<noteq> []) catalog) = request_pairs catalog"
  by (induction catalog) (auto simp: request_pairs_def split: option.splits)

lemma fetch_force_eq:
  "fetch_force http d f st = advance st [(d, f, http (calls st) f d)]"
  by (cases "http (calls st) f d")
     (auto simp: fetch_force_def advance_def contribution_def responded_def tag_records_eq
                 Let_def successful_length_def body_records_def
           split: option.splits)

lemma force_loop_eq:
  "force_loop http d fs st = advance st (attempts_from (calls st) http (map (Pair d) fs))"
proof (induction fs arbitrary: st)
  case Nil
  show ?case by simp
next
  case (Cons f fs)
  have c: "calls (advance st [(d, f, http (calls st) f d)]) = Suc (calls st)"
    by (simp add: advance_def)
  show ?case
    by (simp add: Cons.IH fetch_force_eq c advance_append attempts_from_Cons)
qed

lemma month_loop_eq:
  assumes "\<forall>md\<in>set catalog. entry_date md \<noteq> None"
  shows "month_loop http catalog st =
           Inr (advance st (attempts_from (calls st) http (request_pairs catalog)))"
  using assms
proof (induction catalog arbitrary: st)
  case Nil
  show ?case by (simp add: request_pairs_def)
next
  case (Cons md catalog)
  from Cons.prems obtain d where d: "entry_date md = Some d" by auto
  from Cons.prems have rest: "\<forall>md\<in>set catalog. entry_date md \<noteq> None" by simp
  have rp: "request_pairs (md # catalog) = map (Pair d) (forces_of md) @ request_pairs catalog"
    by (simp add: request_pairs_def d)
  show ?case
  proof (cases "forces_of md = []")
    case True
    then show ?thesis
      using Cons.IH [OF rest] by (simp add: d rp forces_of_def Let_def)
  next
    case False
    have c: "calls (advance st (attempts_from (calls st) http (map (Pair d) (forces_of md))))
               = calls st + length (forces_of md)"
      by (simp add: advance_def)
    from False show ?thesis
      using Cons.IH [OF rest]
      by (simp add: d rp forces_of_def [symmetric] force_loop_eq c advance_append
                    attempts_from_append Let_def)
  qed
qed

lemma month_loop_KeyError:
  assumes "\<exists>md\<in>set catalog. entry_date md = None"
  shows "month_loop http catalog st = Inl KeyError"
  using assms
  by (induction catalog arbitrary: st) (auto simp: Let_def split: option.splits)

text \<open>
  The whole function: with a \<^verbatim>\<open>'date'\<close> in every entry it returns, whatever the network
  does; without, it raises \<^verbatim>\<open>KeyError\<close>.
\<close>

lemma fetch_stops_data_eq:
  assumes "\<forall>md\<in>set catalog. entry_date md \<noteq> None"
  shows "fetch_stops_data http catalog =
           Inr (concat (map contribution (attempts http catalog)),
                sum_list (map successful_length (attempts http catalog)),
                length (filter responded (attempts http catalog)))"
  by (simp add: fetch_stops_data_def month_loop_eq [OF assms] advance_def attempts_def)

lemma fetch_stops_data_KeyError:
  assumes "\<exists>md\<in>set catalog. entry_date md = None"
  shows "fetch_stops_data http catalog = Inl KeyError"
  by (simp add: fetch_stops_data_def month_loop_KeyError [OF assms])

lemma demo_dates: "\<forall>md\<in>set demo_catalog. entry_date md \<noteq> None"
  by (simp add: demo_catalog_def)

lemma demo_attempts:
  "attempts demo_http demo_catalog =
     [(''2023-01'', ''essex'', Response 200 (Some demo_body)),
      (''2023-01'', ''kent'', Raises),
      (''2023-03'', ''essex'', Response 200 (Some demo_body)),
      (''2023-03'', ''surrey'', Response 404 None)]"
  by (simp add: attempts_def attempts_from_def request_pairs_def demo_catalog_def
                demo_http_def forces_of_def)

section \<open>When the date field is read\<close>

lemma filter_months_error:
  assumes "\<exists>md\<in>set catalog. parsed_month md = None"
  shows "filter_months start_date end_date catalog acc = Inl KeyError
         \<or> filter_months start_date end_date catalog acc = Inl ValueError"
  using assms
proof (induction catalog arbitrary: acc)
  case Nil
  then show ?case by simp
next
  case (Cons md catalog)
  show ?case
  proof (cases "parsed_month md")
    case None
    then show ?thesis
      by (auto simp: parsed_month_def split: option.splits)
  next
    case (Some m)
    with Cons.prems have "\<exists>md\<in>set catalog. parsed_month md = None"
      by auto
    from Cons.IH [OF this] Some show ?thesis
      by (auto simp: parsed_month_def split: option.splits)
  qed
qed

text \<open>
  Claim C10, as stated: with no bound, an entry with a malformed or missing date field
  cannot make the run fail, and the date field can raise only when a bound is given. It
  can: \<^verbatim>\<open>fetch_available_dates\<close> returns the catalog untouched, and then
  \<^verbatim>\<open>fetch_stops_data\<close> reads \<^verbatim>\<open>month_data['date']\<close> (line 57) and the run ends with a
  \<^verbatim>\<open>KeyError\<close>.
\<close>

theorem unfiltered_run_counterexample:
  "args_start unfiltered_args = None \<and> args_end unfiltered_args = None
   \<and> fetch_available_dates (catalog_response undated_world) None None = Inr undated_catalog
   \<and> main unfiltered_args undated_world = Inl KeyError"
  by (simp add: unfiltered_args_def undated_world_def undated_catalog_def main_def
                parse_bound_def fetch_available_dates_def fetch_stops_data_def)

text \<open>
  Claim C10, amended: with no bound, \<^verbatim>\<open>fetch_available_dates\<close> returns the catalog as it
  is, whatever the date fields hold or lack, so no date field makes it fail; with a bound, it
  raises (\<^verbatim>\<open>KeyError\<close> or \<^verbatim>\<open>ValueError\<close>) exactly when some entry has no date or a date
  that does not parse. Bound or no bound, \<^verbatim>\<open>fetch_stops_data\<close> then raises \<^verbatim>\<open>KeyError\<close>
  on a catalog with an entry that has no date.
\<close>

theorem dates_parsed_only_when_filtering:
  "fetch_available_dates (Response 200 (Some catalog)) None None = Inr catalog
   \<and> (start_date \<noteq> None \<or> end_date \<noteq> None \<longrightarrow>
        ((\<exists>md\<in>set catalog. parsed_month md = None)
           \<longleftrightarrow> fetch_available_dates (Response 200 (Some catalog)) start_date end_date
                 \<in> {Inl KeyError, Inl ValueError}))
   \<and> ((\<exists>md\<in>set catalog. entry_date md = None) \<longrightarrow>
          fetch_stops_data http catalog = Inl KeyError)"
proof -
  have a: "fetch_available_dates (Response 200 (Some catalog)) None None = Inr catalog"
    by (rule fetch_available_dates_unfiltered)
  have b: "fetch_available_dates (Response 200 (Some catalog)) start_date end_date
             \<in> {Inl KeyError, Inl ValueError}"
    if "start_date \<noteq> None \<or> end_date \<noteq> None" and "\<exists>md\<in>set catalog. parsed_month md = None"
    using that filter_months_error [OF that(2), of start_date end_date "[]"]
    by (auto simp: fetch_available_dates_def)
  have c: "\<exists>md\<in>set catalog. parsed_month md = None"
    if "fetch_available_dates (Response 200 (Some catalog)) start_date end_date
             \<in> {Inl KeyError, Inl ValueError}"
  proof (rule ccontr)
    assume "\<not> (\<exists>md\<in>set catalog. parsed_month md = None)"
    then have "start_date \<noteq> None \<or> end_date \<noteq> None \<longrightarrow>
                 (\<forall>md\<in>set catalog. parsed_month md \<noteq> None)"
      by simp
    from fetch_available_dates_eq [OF this] that show False
      by auto
  qed
  have d: "fetch_stops_data http catalog = Inl KeyError"
    if "\<exists>md\<in>set catalog. entry_date md = None"
    using that by (rule fetch_stops_data_KeyError)
  from a b c d show ?thesis
    by blast
qed

lemma malformed_parsed:
  "map parsed_month malformed_catalog = [Some (Datetime 2023 1), None]"
  by (simp add: malformed_catalog_def parsed_month_def strptime_def digit_of_def)

theorem dates_parsed_only_when_filtering_witness:
  "Some (Datetime 2023 1) \<noteq> None
   \<and> map parsed_month malformed_catalog = [Some (Datetime 2023 1), None]
   \<and> fetch_available_dates (Response 200 (Some malformed_catalog)) (Some (Datetime 2023 1)) None
       = Inl ValueError
   \<and> fetch_available_dates (Response 200 (Some malformed_catalog)) None None
       = Inr malformed_catalog
   \<and> map entry_date undated_catalog = [None]
   \<and> fetch_available_dates (Response 200 (Some undated_catalog)) None None
       = Inr undated_catalog
   \<and> fetch_stops_data demo_http undated_catalog = Inl KeyError"
proof -
  have bad: "\<exists>md\<in>set malformed_catalog. parsed_month md = None"
    using malformed_parsed by (simp add: malformed_catalog_def)
  note t = dates_parsed_only_when_filtering
             [where catalog = malformed_catalog and start_date = "Some (Datetime 2023 1)"
                and end_date = None]
  from t bad
  have "fetch_available_dates (Response 200 (Some malformed_catalog)) (Some (Datetime 2023 1)) None
          \<in> {Inl KeyError, Inl ValueError}"
    by blast
  moreover
  have "fetch_available_dates (Response 200 (Some malformed_catalog)) (Some (Datetime 2023 1)) None
          \<noteq> Inl KeyError"
    by (simp add: fetch_available_dates_def malformed_catalog_def strptime_def digit_of_def)
  ultimately
  have "fetch_available_dates (Response 200 (Some malformed_catalog)) (Some (Datetime 2023 1)) None
          = Inl ValueError"
    by blast
  moreover
  note u = dates_parsed_only_when_filtering
             [where catalog = undated_catalog and start_date = None and end_date = None
                and http = demo_http]
  have e: "map entry_date undated_catalog = [None]"
    by (simp add: undated_catalog_def)
  then have "\<exists>md\<in>set undated_catalog. entry_date md = None"
    by (simp add: undated_catalog_def)
  with u have "fetch_stops_data demo_http undated_catalog = Inl KeyError"
    by blast
  ultimately show ?thesis
    using t u e malformed_parsed by simp
qed

section \<open>Counting requests\<close>

text \<open>
  Claim C1, as stated: \<^verbatim>\<open>total_requests\<close> counts every (month, force) pair attempted, also
  those whose call ends in a transport-level exception. It does not: with one pair and a
  network that raises, one request is attempted and the count is zero.
\<close>

theorem total_requests_counterexample:
  "fetch_stops_data unreachable one_month = Inr ([], 0, 0)
   \<and> length (attempts unreachable one_month) = 1"
  by (simp add: fetch_stops_data_def one_month_def unreachable_def fetch_force_def
                attempts_def attempts_from_def request_pairs_def forces_of_def)

text \<open>
  Claim C1, amended: \<^verbatim>\<open>total_requests\<close> is the number of (month, force) pairs whose call
  returned a response, whatever the status; a pair whose call raised is not counted.
  Entries with an empty force list make no request, so they count nothing.
\<close>

theorem total_requests_counts_responses:
  assumes "\<forall>md\<in>set catalog. entry_date md \<noteq> None"
  shows "\<exists>recs n. fetch_stops_data http catalog =
                    Inr (recs, n, length (filter responded (attempts http catalog)))
         \<and> attempts http catalog = attempts http (filter (\<lambda>md. forces_of md \<noteq> []) catalog)"
  by (simp add: fetch_stops_data_eq [OF assms] attempts_def request_pairs_skip_empty)

theorem total_requests_counts_responses_witness:
  "list_all (\<lambda>md. entry_date md \<noteq> None) demo_catalog
   \<and> (\<exists>recs n. fetch_stops_data demo_http demo_catalog = Inr (recs, n, 3))
   \<and> length (attempts demo_http demo_catalog) = 4"
proof -
  have h: "\<forall>md\<in>set demo_catalog. entry_date md \<noteq> None"
    by (rule demo_dates)
  have c: "length (filter responded (attempts demo_http demo_catalog)) = 3"
    by (simp add: demo_attempts responded_def)
  from total_requests_counts_responses [OF h, of demo_http]
  obtain recs n where
    "fetch_stops_data demo_http demo_catalog =
       Inr (recs, n, length (filter responded (attempts demo_http demo_catalog)))"
    by blast
  then have "\<exists>recs n. fetch_stops_data demo_http demo_catalog = Inr (recs, n, 3)"
    unfolding c by blast
  moreover have "length (attempts demo_http demo_catalog) = 4"
    by (simp add: demo_attempts)
  ultimately show ?thesis
    using h by (simp add: list_all_iff)
qed

section \<open>Counting records\<close>

text \<open>
  Claim C5: \<^verbatim>\<open>total_records\<close> is the sum, over the requests, of the number of records of a
  body that is not empty and came with a success status; a request that raised, that got
  another status, whose body could not be decoded or whose body is empty adds zero.
\<close>

theorem total_records_sums_successes:
  assumes "\<forall>md\<in>set catalog. entry_date md \<noteq> None"
  shows "\<exists>recs m. fetch_stops_data http catalog =
                    Inr (recs, sum_list (map successful_length (attempts http catalog)), m)"
  by (simp add: fetch_stops_data_eq [OF assms])

theorem total_records_sums_successes_witness:
  "list_all (\<lambda>md. entry_date md \<noteq> None) demo_catalog
   \<and> (\<exists>recs m. fetch_stops_data demo_http demo_catalog = Inr (recs, 4, m))
   \<and> map successful_length (attempts demo_http demo_catalog) = [2, 0, 2, 0]"
proof -
  have h: "\<forall>md\<in>set demo_catalog. entry_date md \<noteq> None"
    by (rule demo_dates)
  have c: "map successful_length (attempts demo_http demo_catalog) = [2, 0, 2, 0]"
    by (simp add: demo_attempts successful_length_def demo_body_def)
  from total_records_sums_successes [OF h, of demo_http]
  obtain recs m where
    "fetch_stops_data demo_http demo_catalog =
       Inr (recs, sum_list (map successful_length (attempts demo_http demo_catalog)), m)"
    by blast
  then have "\<exists>recs m. fetch_stops_data demo_http demo_catalog = Inr (recs, 4, m)"
    unfolding c by simp
  with c h show ?thesis
    by (simp add: list_all_iff)
qed

section \<open>Tags and order of the records\<close>

text \<open>
  Claim C3: the records returned are those of the responses, request after request in the
  order of the (month, force) pairs (months in the catalog's order, forces in the entry's
  order), each response's records in the order of its body, and each record tagged with
  the month and the force of its request: its \<^verbatim>\<open>date\<close> is that month and its
  \<^verbatim>\<open>force_id\<close> that force.
\<close>

theorem records_tagged_in_request_order:
  assumes "\<forall>md\<in>set catalog. entry_date md \<noteq> None"
  shows "(\<exists>n m. fetch_stops_data http catalog =
            Inr (concat (map (\<lambda>(d, f, out). map (tagged d f) (body_records out))
                             (attempts http catalog)), n, m))
         \<and> map (\<lambda>(d, f, out). (d, f)) (attempts http catalog) = request_pairs catalog
         \<and> (\<forall>d f r. getitem (tagged d f r) ''date'' = Some (JStr d)
                     \<and> getitem (tagged d f r) ''force_id'' = Some (JStr f))"
proof -
  have "contribution = (\<lambda>(d, f, out). map (tagged d f) (body_records out))"
    by (auto simp: contribution_def fun_eq_iff)
  then show ?thesis
    by (simp add: fetch_stops_data_eq [OF assms] getitem_tagged attempts_def
                  pairs_of_attempts_from)
qed

theorem records_tagged_in_request_order_witness:
  "list_all (\<lambda>md. entry_date md \<noteq> None) demo_catalog
   \<and> (\<exists>n m. fetch_stops_data demo_http demo_catalog =
         Inr ([[(''type'', JStr ''search''), (''date'', JStr ''2023-01''), (''force_id'', JStr ''essex'')],
               [(''date'', JStr ''2023-01''), (''force_id'', JStr ''essex'')],
               [(''type'', JStr ''search''), (''date'', JStr ''2023-03''), (''force_id'', JStr ''essex'')],
               [(''date'', JStr ''2023-03''), (''force_id'', JStr ''essex'')]], n, m))
   \<and> request_pairs demo_catalog =
        [(''2023-01'', ''essex''), (''2023-01'', ''kent''),
         (''2023-03'', ''essex''), (''2023-03'', ''surrey'')]"
proof -
  have h: "\<forall>md\<in>set demo_catalog. entry_date md \<noteq> None"
    by (rule demo_dates)
  have c: "concat (map (\<lambda>(d, f, out). map (tagged d f) (body_records out))
                       (attempts demo_http demo_catalog)) =
           [[(''type'', JStr ''search''), (''date'', JStr ''2023-01''), (''force_id'', JStr ''essex'')],
            [(''date'', JStr ''2023-01''), (''force_id'', JStr ''essex'')],
            [(''type'', JStr ''search''), (''date'', JStr ''2023-03''), (''force_id'', JStr ''essex'')],
            [(''date'', JStr ''2023-03''), (''force_id'', JStr ''essex'')]]"
    by (simp add: demo_attempts body_records_def demo_body_def tagged_def)
  have p: "request_pairs demo_catalog =
        [(''2023-01'', ''essex''), (''2023-01'', ''kent''),
         (''2023-03'', ''essex''), (''2023-03'', ''surrey'')]"
    by (simp add: request_pairs_def demo_catalog_def forces_of_def)
  from records_tagged_in_request_order [OF h, of demo_http]
  have "\<exists>n m. fetch_stops_data demo_http demo_catalog =
            Inr (concat (map (\<lambda>(d, f, out). map (tagged d f) (body_records out))
                             (attempts demo_http demo_catalog)), n, m)"
    by blast
  then show ?thesis
    unfolding c using h p by (simp add: list_all_iff)
qed

section \<open>Requests that fail\<close>

text \<open>
  Claim C6: whatever the network does, \<^verbatim>\<open>fetch_stops_data\<close> returns; a request that
  raised or got a status other than 200 adds no record and nothing to \<^verbatim>\<open>total_records\<close>,
  and the requests after it are made and counted as if it had not been there: the result
  is that of the requests that did not fail.
\<close>

theorem failed_requests_are_skipped:
  assumes "\<forall>md\<in>set catalog. entry_date md \<noteq> None"
  shows "\<exists>m. fetch_stops_data http catalog =
              Inr (concat (map contribution (filter (\<lambda>a. \<not> failed a) (attempts http catalog))),
                   sum_list (map successful_length
                                 (filter (\<lambda>a. \<not> failed a) (attempts http catalog))),
                   m)"
proof -
  have "concat (map contribution (filter (\<lambda>a. \<not> failed a) (attempts http catalog))) =
          concat (map contribution (attempts http catalog))"
    by (rule concat_map_filter_empty) (simp add: failed_contribution)
  moreover
  have "sum_list (map successful_length (filter (\<lambda>a. \<not> failed a) (attempts http catalog))) =
          sum_list (map successful_length (attempts http catalog))"
    by (rule sum_list_map_filter_zero) (simp add: failed_contribution successful_length_eq)
  ultimately show ?thesis
    by (simp add: fetch_stops_data_eq [OF assms])
qed

theorem failed_requests_are_skipped_witness:
  "list_all (\<lambda>md. entry_date md \<noteq> None) demo_catalog
   \<and> map failed (attempts demo_http demo_catalog) = [False, True, False, True]
   \<and> (\<exists>m. fetch_stops_data demo_http demo_catalog =
         Inr (map (tagged ''2023-01'' ''essex'') demo_body
                @ map (tagged ''2023-03'' ''essex'') demo_body, 4, m))"
proof -
  have h: "\<forall>md\<in>set demo_catalog. entry_date md \<noteq> None"
    by (rule demo_dates)
  have f: "filter (\<lambda>a. \<not> failed a) (attempts demo_http demo_catalog) =
             [(''2023-01'', ''essex'', Response 200 (Some demo_body)),
              (''2023-03'', ''essex'', Response 200 (Some demo_body))]"
    by (simp add: demo_attempts failed_def)
  have m: "map failed (attempts demo_http demo_catalog) = [False, True, False, True]"
    by (simp add: demo_attempts failed_def)
  have c: "concat (map contribution
                    [(''2023-01'', ''essex'', Response 200 (Some demo_body)),
                     (''2023-03'', ''essex'', Response 200 (Some demo_body))]) =
             map (tagged ''2023-01'' ''essex'') demo_body
               @ map (tagged ''2023-03'' ''essex'') demo_body"
    by (simp add: contribution_def body_records_def)
  have s: "sum_list (map successful_length
                    [(''2023-01'', ''essex'', Response 200 (Some demo_body)),
                     (''2023-03'', ''essex'', Response 200 (Some demo_body))]) = 4"
    by (simp add: successful_length_def demo_body_def)
  from failed_requests_are_skipped [OF h, of demo_http]
  have "\<exists>m. fetch_stops_data demo_http demo_catalog =
         Inr (map (tagged ''2023-01'' ''essex'') demo_body
                @ map (tagged ''2023-03'' ''essex'') demo_body, 4, m)"
    unfolding f c s .
  with h m show ?thesis
    by (simp add: list_all_iff)
qed

section \<open>What tagging changes in a record\<close>

text \<open>
  Claim C9: a record of a response, once appended, has the month under \<^verbatim>\<open>date\<close> and the
  force under \<^verbatim>\<open>force_id\<close>, whatever it had there before, and under every other key
  what the response had.
\<close>

theorem tagging_sets_only_date_and_force_id:
  assumes "http (calls st) force_id date = Response 200 (Some stops)"
    and "i < length stops"
  shows "getitem (all_records (fetch_force http date force_id st) ! (length (all_records st) + i)) k =
           (if k = ''date'' then Some (JStr date)
            else if k = ''force_id'' then Some (JStr force_id)
            else getitem (stops ! i) k)"
proof -
  have "all_records (fetch_force http date force_id st) =
          all_records st @ map (tagged date force_id) stops"
    using assms(1) by (auto simp: fetch_force_def Let_def tag_records_eq)
  with assms(2) show ?thesis
    by (simp add: nth_append getitem_tagged)
qed

theorem tagging_sets_only_date_and_force_id_witness:
  "old_http (calls start_state) ''essex'' ''2023-01'' = Response 200 (Some [old_record])
   \<and> (0::nat) < length [old_record]
   \<and> map (getitem (all_records (fetch_force old_http ''2023-01'' ''essex'' start_state) ! 0))
          [''date'', ''type'', ''force_id'', ''other'']
       = [Some (JStr ''2023-01''), Some (JStr ''search''), Some (JStr ''essex''), None]
   \<and> map (getitem old_record) [''date'', ''type'', ''force_id'', ''other'']
       = [Some (JStr ''1999-12''), Some (JStr ''search''), Some (JInt 7), None]"
proof -
  have h1: "old_http (calls start_state) ''essex'' ''2023-01'' = Response 200 (Some [old_record])"
    by (simp add: old_http_def)
  have h2: "(0::nat) < length [old_record]"
    by simp
  have l: "length (all_records start_state) + 0 = 0"
    by (simp add: start_state_def)
  note t = tagging_sets_only_date_and_force_id
             [where http = old_http and st = start_state and stops = "[old_record]" and i = 0,
              OF h1 h2, unfolded l]
  have r: "getitem old_record ''type'' = Some (JStr ''search'')"
          "getitem old_record ''other'' = None"
    by (simp_all add: getitem_def old_record_def)
  have "map (getitem (all_records (fetch_force old_http ''2023-01'' ''essex'' start_state) ! 0))
          [''date'', ''type'', ''force_id'', ''other'']
       = [Some (JStr ''2023-01''), Some (JStr ''search''), Some (JStr ''essex''), None]"
    by (simp add: t r)
  moreover have "map (getitem old_record) [''date'', ''type'', ''force_id'', ''other'']
       = [Some (JStr ''1999-12''), Some (JStr ''search''), Some (JInt 7), None]"
    by (simp add: getitem_def old_record_def)
  ultimately show ?thesis
    using h1 h2 by simp
qed

section \<open>The early returns and the output path of \<^verbatim>\<open>main\<close>\<close>

lemma sorted_hd_Min:
  fixes xs :: "'a::linorder list"
  assumes "sorted xs" and "xs \<noteq> []"
  shows "hd xs = Min (set xs)"
  using assms by (cases xs) (auto intro!: Min_eqI [symmetric])

lemma sorted_last_Max:
  fixes xs :: "'a::linorder list"
  assumes "sorted xs" and "xs \<noteq> []"
  shows "last xs = Max (set xs)"
  using assms
proof (induction xs)
  case Nil
  then show ?case by simp
next
  case (Cons x xs)
  show ?case
  proof (cases "xs = []")
    case True
    then show ?thesis by simp
  next
    case False
    with Cons have "last xs = Max (set xs)" by simp
    moreover from Cons.prems False have "x \<le> Max (set xs)"
      by (metis List.finite_set Max_ge last_in_set calculation order_trans set_empty sorted_simps(2))
    ultimately show ?thesis
      using False by (simp add: max_def)
  qed
qed

lemma dates_of_eq:
  assumes "\<forall>md\<in>set catalog. entry_date md \<noteq> None"
  shows "dates_of catalog = Inr (months_of catalog)"
  using assms
  by (induction catalog) (auto simp: months_of_def List.map_filter_simps)

lemma months_of_empty:
  assumes "\<forall>md\<in>set catalog. entry_date md \<noteq> None"
  shows "months_of catalog = [] \<longleftrightarrow> catalog = []"
  using assms
  by (cases catalog) (auto simp: months_of_def List.map_filter_simps)

lemma main_after_parsing:
  assumes "parse_bound (args_start a) = Inr start_date"
    and "parse_bound (args_end a) = Inr end_date"
    and "bounds_accepted start_date end_date"
    and "fetch_available_dates (catalog_response w) start_date end_date = Inr available_data"
  shows "main a w =
           (if available_data = []
            then Inr \<lparr>printed = [''No hay datos disponibles para el rango de fechas especificado''],
                       created_dir = False, output_path = None, files = [], summary = None\<rparr>
            else (case fetch_stops_data (stops_transport w) available_data of
                    Inl e \<Rightarrow> Inl e
                  | Inr (records, n_records, n_requests) \<Rightarrow>
                      if records = []
                      then Inr \<lparr>printed = [''No se obtuvieron registros''],
                                 created_dir = False, output_path = None, files = [],
                                 summary = None\<rparr>
                      else export_stage a w available_data records n_records n_requests))"
proof -
  have "\<not> (case start_date of
             None \<Rightarrow> False
           | Some s \<Rightarrow> (case end_date of None \<Rightarrow> False | Some e \<Rightarrow> dt_less e s))"
    using assms(3)
    by (auto simp: bounds_accepted_def not_dt_less [symmetric] split: option.splits)
  then show ?thesis
    by (simp add: main_def assms(1,2,4))
qed

lemma unfiltered_bounds:
  "parse_bound (args_start unfiltered_args) = Inr None"
  "parse_bound (args_end unfiltered_args) = Inr None"
  "bounds_accepted None None"
  by (simp_all add: unfiltered_args_def parse_bound_def bounds_accepted_def)

text \<open>
  Claim C7: when the catalog is empty after filtering, or \<^verbatim>\<open>fetch_stops_data\<close> returns no
  record, \<^verbatim>\<open>main\<close> returns having printed one message that says so, without calling
  \<^verbatim>\<open>save_data\<close>, without creating the directory and without writing a file.
\<close>

theorem early_return_without_export:
  assumes "parse_bound (args_start a) = Inr start_date"
    and "parse_bound (args_end a) = Inr end_date"
    and "bounds_accepted start_date end_date"
    and "fetch_available_dates (catalog_response w) start_date end_date = Inr available_data"
    and "available_data = []
         \<or> (\<exists>n m. fetch_stops_data (stops_transport w) available_data = Inr ([], n, m))"
  shows "main a w =
           Inr \<lparr>printed =
                  [if available_data = []
                   then ''No hay datos disponibles para el rango de fechas especificado''
                   else ''No se obtuvieron registros''],
                created_dir = False, output_path = None, files = [], summary = None\<rparr>"
  using assms(5) by (auto simp: main_after_parsing [OF assms(1-4)])

theorem early_return_without_export_witness:
  "parse_bound (args_start unfiltered_args) = Inr None
   \<and> parse_bound (args_end unfiltered_args) = Inr None
   \<and> bounds_accepted None None
   \<and> fetch_available_dates (catalog_response empty_world) None None = Inr scenario_catalog
   \<and> fetch_stops_data (stops_transport empty_world) scenario_catalog = Inr ([], 0, 1)
   \<and> main unfiltered_args empty_world =
         Inr \<lparr>printed = [''No se obtuvieron registros''],
              created_dir = False, output_path = None, files = [], summary = None\<rparr>
   \<and> fetch_available_dates (catalog_response no_catalog_world) None None = Inr []
   \<and> main unfiltered_args no_catalog_world =
         Inr \<lparr>printed = [''No hay datos disponibles para el rango de fechas especificado''],
              created_dir = False, output_path = None, files = [], summary = None\<rparr>"
proof -
  have c1: "fetch_available_dates (catalog_response empty_world) None None = Inr scenario_catalog"
    by (simp add: empty_world_def fetch_available_dates_def)
  have s1: "fetch_stops_data (stops_transport empty_world) scenario_catalog = Inr ([], 0, 1)"
    by (simp add: empty_world_def empty_http_def scenario_catalog_def fetch_stops_data_def
                  fetch_force_def)
  then have d1: "scenario_catalog = []
         \<or> (\<exists>n m. fetch_stops_data (stops_transport empty_world) scenario_catalog = Inr ([], n, m))"
    by blast
  have ne: "scenario_catalog \<noteq> []"
    by (simp add: scenario_catalog_def)
  have c2: "fetch_available_dates (catalog_response no_catalog_world) None None = Inr []"
    by (simp add: no_catalog_world_def fetch_available_dates_def)
  have d2: "([]::month_data list) = []
         \<or> (\<exists>n m. fetch_stops_data (stops_transport no_catalog_world) [] = Inr ([], n, m))"
    by simp
  note m1 = early_return_without_export [OF unfiltered_bounds c1 d1]
  note m2 = early_return_without_export [OF unfiltered_bounds c2 d2]
  from m1 m2 ne c1 s1 c2 unfiltered_bounds show ?thesis
    by simp
qed

text \<open>
  Claim C2: when the catalog and the records are not empty, \<^verbatim>\<open>main\<close> gives \<^verbatim>\<open>save_data\<close>
  the base path \<^verbatim>\<open>data/stop_search_data/ssd_<earliest>-<latest>\<close>, where earliest and
  latest are the least and the greatest month string among all the entries of the filtered
  catalog, those with no force and those whose requests gave nothing included.
\<close>

theorem output_path_spans_catalog:
  assumes "parse_bound (args_start a) = Inr start_date"
    and "parse_bound (args_end a) = Inr end_date"
    and "bounds_accepted start_date end_date"
    and "fetch_available_dates (catalog_response w) start_date end_date = Inr available_data"
    and "fetch_stops_data (stops_transport w) available_data = Inr (records, n, m)"
    and "records \<noteq> []"
  shows "\<exists>r. main a w = Inr r
             \<and> output_path r =
                 Some (''data/stop_search_data/ssd_'' @ Min (set (months_of available_data))
                         @ ''-'' @ Max (set (months_of available_data)))"
proof -
  have dated: "\<forall>md\<in>set available_data. entry_date md \<noteq> None"
  proof (rule ccontr)
    assume "\<not> (\<forall>md\<in>set available_data. entry_date md \<noteq> None)"
    then have "\<exists>md\<in>set available_data. entry_date md = None" by simp
    from fetch_stops_data_KeyError [OF this, of "stops_transport w"] assms(5)
    show False by simp
  qed
  have nonempty: "available_data \<noteq> []"
  proof
    assume "available_data = []"
    with assms(5,6) show False
      by (simp add: fetch_stops_data_def)
  qed
  let ?ds = "months_of available_data"
  have "?ds \<noteq> []"
    using nonempty months_of_empty [OF dated] by simp
  then have "length (sort ?ds) \<noteq> 0"
    by simp
  then have ds: "sort ?ds \<noteq> []"
    by (simp only: length_0_conv not_False_eq_True)
  have h: "hd (sort ?ds) = Min (set ?ds)"
    using sorted_hd_Min [of "sort ?ds"] ds by simp
  have l: "last (sort ?ds) = Max (set ?ds)"
    using sorted_last_Max [of "sort ?ds"] ds by simp
  have "main a w = export_stage a w available_data records n m"
    using nonempty assms(5,6) by (simp add: main_after_parsing [OF assms(1-4)])
  moreover have "(sort ?ds = []) = False"
    using ds by blast
  ultimately show ?thesis
    by (simp add: export_stage_def dates_of_eq [OF dated] Let_def h l path_join_def
             split: prod.splits)
qed

theorem output_path_spans_catalog_witness:
  "parse_bound (args_start unfiltered_args) = Inr None
   \<and> parse_bound (args_end unfiltered_args) = Inr None
   \<and> bounds_accepted None None
   \<and> fetch_available_dates (catalog_response scenario_world) None None = Inr scenario_catalog
   \<and> fetch_stops_data (stops_transport scenario_world) scenario_catalog =
        Inr ([tagged ''2023-01'' ''metropolitan'' old_record], 1, 1)
   \<and> [tagged ''2023-01'' ''metropolitan'' old_record] \<noteq> []
   \<and> months_of scenario_catalog = [''2023-01'', ''2023-02'']
   \<and> request_pairs scenario_catalog = [(''2023-01'', ''metropolitan'')]
   \<and> (\<exists>r. main unfiltered_args scenario_world = Inr r
            \<and> output_path r = Some ''data/stop_search_data/ssd_2023-01-2023-02'')"
proof -
  have c: "fetch_available_dates (catalog_response scenario_world) None None = Inr scenario_catalog"
    by (simp add: scenario_world_def fetch_available_dates_def)
  have s: "fetch_stops_data (stops_transport scenario_world) scenario_catalog =
        Inr ([tagged ''2023-01'' ''metropolitan'' old_record], 1, 1)"
    by (simp add: scenario_world_def old_http_def scenario_catalog_def fetch_stops_data_def
                  fetch_force_def)
  have n: "[tagged ''2023-01'' ''metropolitan'' old_record] \<noteq> []"
    by simp
  have mo: "months_of scenario_catalog = [''2023-01'', ''2023-02'']"
    by (simp add: months_of_def scenario_catalog_def List.map_filter_simps)
  have rp: "request_pairs scenario_catalog = [(''2023-01'', ''metropolitan'')]"
    by (simp add: request_pairs_def scenario_catalog_def forces_of_def)
  have mi: "Min (set [''2023-01'', ''2023-02'']) = ''2023-01''"
    by simp
  have ma: "Max (set [''2023-01'', ''2023-02'']) = ''2023-02''"
    by simp
  from output_path_spans_catalog [OF unfiltered_bounds c s n]
  have "\<exists>r. main unfiltered_args scenario_world = Inr r
            \<and> output_path r = Some ''data/stop_search_data/ssd_2023-01-2023-02''"
    unfolding mo mi ma by simp
  with c s n mo rp unfiltered_bounds show ?thesis
    by simp
qed

section \<open>What \<^verbatim>\<open>save_data\<close> hands to the JSON writer\<close>

text \<open>
  With the JSON format requested, the first file written is \<^verbatim>\<open><output_base>.json\<close>, and
  it is written by \<^verbatim>\<open>json.dump\<close> from the records as they were passed in.
\<close>

lemma save_data_json_first:
  "save_data records output_base True save_csv save_parquet = (written, saved_files) \<Longrightarrow>
     hd written = (output_base @ ''.json'', Json_dump records)
     \<and> hd saved_files = output_base @ ''.json''"
  by (auto simp: save_data_def Let_def)

section \<open>Reading the JSON file back\<close>

subsection \<open>Strings\<close>

lemma hex_value_hex_digit: "k < 16 \<Longrightarrow> hex_value (hex_digit k) = Some k"
proof -
  assume "k < 16"
  then have "k = 0 \<or> k = 1 \<or> k = 2 \<or> k = 3 \<or> k = 4 \<or> k = 5 \<or> k = 6 \<or> k = 7 \<or> k = 8
             \<or> k = 9 \<or> k = 10 \<or> k = 11 \<or> k = 12 \<or> k = 13 \<or> k = 14 \<or> k = 15"
    by arith
  then have "k \<in> {0, 1, 2, 3, 4, 5, 6, 7, 8, 9, 10, 11, 12, 13, 14, 15}"
    by blast
  then show ?thesis
    by (elim insertE emptyE) (simp_all add: hex_digit_def hex_value_def)
qed

lemma hex4_control:
  assumes "n < 256"
  shows "hex4 (CHR ''0'') (CHR ''0'') (hex_digit (n div 16)) (hex_digit (n mod 16)) = Some n"
proof -
  have "n div 16 < 16" using assms by simp
  then show ?thesis
    by (simp add: hex4_def hex_value_hex_digit) (simp add: hex_value_def)
qed

lemma scan_unicode_control:
  assumes "n < 32"
  shows "scan_unicode (CHR ''0'' # CHR ''0'' # hex_digit (n div 16) # hex_digit (n mod 16) # t)
           = Some (n, t)"
  using assms by (simp add: scan_unicode_def hex4_control)

lemma utf8_control: "(of_char c :: nat) < 32 \<Longrightarrow> utf8 (of_char c) = Some [c]"
  by (simp add: utf8_def)

lemma scan_string_escape_char:
  "scan_string (escape_char c @ t) = prepend c (scan_string t)"
proof -
  consider "c = quote" | "c = backslash" | "c = CHR 0x08" | "c = CHR 0x0C" | "c = CHR 0x0A"
    | "c = CHR 0x0D" | "c = CHR 0x09"
    | "c \<notin> {quote, backslash, CHR 0x08, CHR 0x0C, CHR 0x0A, CHR 0x0D, CHR 0x09}"
      "(of_char c :: nat) < 32"
    | "c \<notin> {quote, backslash, CHR 0x08, CHR 0x0C, CHR 0x0A, CHR 0x0D, CHR 0x09}"
      "\<not> (of_char c :: nat) < 32"
    by blast
  then show ?thesis
  proof cases
    case 8
    then show ?thesis
      by (simp add: escape_char_def scan_string.simps(2) scan_unicode_control utf8_control
                    prepend_def split: option.splits)
  next
    case 9
    then show ?thesis
      by (simp add: escape_char_def scan_string.simps(2) prepend_def split: option.splits)
  qed (simp_all add: escape_char_def scan_string.simps(2) unescape_def prepend_def
                split: option.splits)
qed

lemma scan_string_escaped:
  "scan_string (concat (map escape_char s) @ quote # rest) = Some (s, rest)"
proof (induction s)
  case Nil
  show ?case by (simp add: scan_string.simps(2))
next
  case (Cons c s)
  have "scan_string (concat (map escape_char (c # s)) @ quote # rest) =
          scan_string (escape_char c @ (concat (map escape_char s) @ quote # rest))"
    by simp
  also have "\<dots> = prepend c (scan_string (concat (map escape_char s) @ quote # rest))"
    by (rule scan_string_escape_char)
  finally show ?case
    by (simp add: Cons.IH prepend_def)
qed

lemma scan_encode_string:
  "encode_string s @ rest = quote # t \<Longrightarrow> scan_string t = Some (s, rest)"
  using scan_string_escaped [of s rest] by (simp add: encode_string_def)

subsection \<open>Numbers\<close>

























subsection \<open>Values\<close>


lemma skip_ws_Nil [simp]: "skip_ws [] = []"
  by (simp add: skip_ws_def)







lemma encode_string_start: "\<exists>t. encode_string s = quote # t"
  by (simp add: encode_string_def)













lemma length_encode_string: "2 \<le> length (encode_string s)"
  by (simp add: encode_string_def)







end
